theory Spec2Isabelle
  imports Main "HOL-Library.Sublist" "HOL-Library.AList"
begin

section \<open>JavaScript values\<close>

text \<open>
  The values the two modules handle are what \<^verbatim>\<open>JSON.parse\<close> returns and what object
  literals build from them, plus \<^verbatim>\<open>undefined\<close>. An object is an association list in
  insertion order. Numbers are the integral ones: the only arithmetic either module does
  on a number is the range test on a block's \<^verbatim>\<open>section\<close> field. A \<^typ>\<open>char\<close> stands for
  one code unit below 256 of a JavaScript string.
\<close>

datatype js =
    Undefined
  | Null
  | Bool bool
  | Num int
  | Str string
  | Arr "js list"
  | Obj "(string \<times> js) list"

datatype error =
    TypeError
  | Error string
  | NetworkError

text \<open>\<^verbatim>\<open>if (v)\<close>, \<^verbatim>\<open>!v\<close>, \<^verbatim>\<open>a || b\<close>: the truthiness of a value.\<close>

fun truthy :: "js \<Rightarrow> bool" where
  "truthy Undefined = False"
| "truthy Null = False"
| "truthy (Bool b) = b"
| "truthy (Num n) = (n \<noteq> 0)"
| "truthy (Str s) = (s \<noteq> [])"
| "truthy (Arr xs) = True"
| "truthy (Obj kvs) = True"

text \<open>
  \<^verbatim>\<open>v.k\<close> for the property names the source reads (\<^verbatim>\<open>section\<close>, \<^verbatim>\<open>id\<close>, \<^verbatim>\<open>messages\<close>,
  \<^verbatim>\<open>timestamp\<close>, \<^verbatim>\<open>success\<close>, \<^verbatim>\<open>workflowId\<close>, \<^verbatim>\<open>workflow\<close>), none of which a
  prototype supplies: a TypeError on \<^verbatim>\<open>null\<close> and \<^verbatim>\<open>undefined\<close>, the own property of an
  object, \<^verbatim>\<open>undefined\<close> otherwise.
\<close>

definition lookup :: "(string \<times> js) list \<Rightarrow> string \<Rightarrow> js" where
  "lookup kvs k = (case map_of kvs k of None \<Rightarrow> Undefined | Some v \<Rightarrow> v)"

fun get_prop :: "js \<Rightarrow> string \<Rightarrow> error + js" where
  "get_prop Undefined k = Inl TypeError"
| "get_prop Null k = Inl TypeError"
| "get_prop (Obj kvs) k = Inr (lookup kvs k)"
| "get_prop v k = Inr Undefined"

text \<open>Decimal rendering of an integer, as \<^verbatim>\<open>String(n)\<close> gives it.\<close>

definition digit_char :: "nat \<Rightarrow> char" where
  "digit_char d = char_of (48 + d)"

fun digits :: "nat \<Rightarrow> string" where
  "digits n = (if n < 10 then [digit_char n] else digits (n div 10) @ [digit_char (n mod 10)])"

declare digits.simps [simp del]


text \<open>
  The own enumerable properties that \<^verbatim>\<open>{...v}\<close> copies: those of an object, the indexed
  elements of an array or a string, nothing for the other primitives.
\<close>

fun own_props :: "js \<Rightarrow> (string \<times> js) list" where
  "own_props (Obj kvs) = kvs"
| "own_props (Arr xs) = zip (map digits [0..<length xs]) xs"
| "own_props (Str s) = zip (map digits [0..<length s]) (map (\<lambda>c. Str [c]) s)"
| "own_props v = []"

text \<open>
  \<^verbatim>\<open>{...target, ...source}\<close>: each property of the source is assigned in turn; an existing
  key keeps its place and takes the new value, a new key goes to the end.
\<close>

definition assign :: "(string \<times> js) list \<Rightarrow> (string \<times> js) list \<Rightarrow> (string \<times> js) list" where
  "assign target source = foldl (\<lambda>acc (k, v). AList.update k v acc) target source"

text \<open>
  What \<^verbatim>\<open>JSON.parse(JSON.stringify(v))\<close> returns: a property whose value is \<^verbatim>\<open>undefined\<close> is
  left out of an object, an \<^verbatim>\<open>undefined\<close> element of an array becomes \<^verbatim>\<open>null\<close>.
\<close>

fun jsonify :: "js \<Rightarrow> js" where
  "jsonify (Arr xs) = Arr (map (\<lambda>x. if x = Undefined then Null else jsonify x) xs)"
| "jsonify (Obj kvs) =
     Obj (map (\<lambda>(k, v). (k, jsonify v)) (filter (\<lambda>(k, v). v \<noteq> Undefined) kvs))"
| "jsonify v = v"

subsection \<open>Coercions of the section field\<close>

text \<open>The white space of \<^verbatim>\<open>\s\<close> and of string-to-number trimming, among the code units below 256.\<close>

definition is_space :: "char \<Rightarrow> bool" where
  "is_space c =
     (c = CHR 0x09 \<or> c = CHR 0x0A \<or> c = CHR 0x0B \<or> c = CHR 0x0C \<or> c = CHR 0x0D \<or>
      c = CHR 0x20 \<or> c = CHR 0xA0)"










section \<open>The two regular expressions of dataParser.js\<close>

text \<open>
  A pattern is a function from the text at the current position to the texts that remain
  after each way of matching there, in the order a backtracking matcher tries them. The
  match the engine reports is the first of the list.
\<close>

type_synonym matcher = "string \<Rightarrow> string list"

definition lit :: "string \<Rightarrow> matcher" where
  "lit p s = (if take (length p) s = p then [drop (length p) s] else [])"

definition opt :: "matcher \<Rightarrow> matcher" where
  "opt m s = m s @ [s]"

definition seq :: "matcher \<Rightarrow> matcher \<Rightarrow> matcher" where
  "seq m n s = concat (map n (m s))"

text \<open>\<^verbatim>\<open>\s*\<close>, greedy: the longest run first, then each shorter one.\<close>

fun spaces :: matcher where
  "spaces [] = [[]]"
| "spaces (c # cs) = (if is_space c then spaces cs else []) @ [c # cs]"

text \<open>
  \<^verbatim>\<open>[\s\S]*?\<close>, lazy: every split of the text into what is consumed and what remains, the
  shortest consumption first.
\<close>

fun lazy_any :: "string \<Rightarrow> (string \<times> string) list" where
  "lazy_any [] = [([], [])]"
| "lazy_any (c # cs) = ([], c # cs) # map (\<lambda>(a, r). (c # a, r)) (lazy_any cs)"

text \<open>\<^verbatim>\<open>([\s\S]*?)p\<close>: the capture and the text after the literal \<open>p\<close> that closes it.\<close>

definition capture_to :: "string \<Rightarrow> string \<Rightarrow> (string \<times> string) list" where
  "capture_to p s = concat (map (\<lambda>(cap, e). map (Pair cap) (lit p e)) (lazy_any s))"

text \<open>
  \<^verbatim>\<open>/```(?:json)?\s*\n([\s\S]*?)\n```/\<close> anchored at the current position: the capture and
  the text after the match, for each way of matching.
\<close>

definition block_open :: matcher where
  "block_open = seq (lit ''```'') (seq (opt (lit ''json'')) (seq spaces (lit ''\<newline>'')))"

definition block_at :: "string \<Rightarrow> (string \<times> string) list" where
  "block_at s = concat (map (capture_to ''\<newline>```'') (block_open s))"



text \<open>The engine tries each start position from the left and reports the first match found.\<close>

fun search :: "(string \<Rightarrow> 'a list) \<Rightarrow> string \<Rightarrow> 'a option" where
  "search m [] = (case m [] of [] \<Rightarrow> None | x # xs \<Rightarrow> Some x)"
| "search m (c # cs) = (case m (c # cs) of [] \<Rightarrow> search m cs | x # xs \<Rightarrow> Some x)"

text \<open>What each pattern can match, as a decomposition of the text.\<close>

lemma lit_iff: "r \<in> set (lit p s) \<longleftrightarrow> s = p @ r"
  by (auto simp: lit_def) (metis append_take_drop_id)

lemma opt_iff: "r \<in> set (opt m s) \<longleftrightarrow> r \<in> set (m s) \<or> r = s"
  by (auto simp: opt_def)

lemma seq_iff: "r \<in> set (seq m n s) \<longleftrightarrow> (\<exists>t. t \<in> set (m s) \<and> r \<in> set (n t))"
  by (auto simp: seq_def)

lemma spaces_iff: "r \<in> set (spaces s) \<longleftrightarrow> (\<exists>ws. s = ws @ r \<and> list_all is_space ws)"
proof (induction s)
  case Nil
  then show ?case by auto
next
  case (Cons c cs)
  show ?case
  proof
    assume "r \<in> set (spaces (c # cs))"
    then consider "is_space c" "r \<in> set (spaces cs)" | "r = c # cs"
      by (auto split: if_splits)
    then show "\<exists>ws. c # cs = ws @ r \<and> list_all is_space ws"
    proof cases
      case 1
      then obtain ws where "cs = ws @ r" "list_all is_space ws" using Cons.IH by blast
      then have "c # cs = (c # ws) @ r \<and> list_all is_space (c # ws)" using 1 by simp
      then show ?thesis by blast
    next
      case 2
      then have "c # cs = [] @ r \<and> list_all is_space []" by simp
      then show ?thesis by blast
    qed
  next
    assume "\<exists>ws. c # cs = ws @ r \<and> list_all is_space ws"
    then obtain ws where ws: "c # cs = ws @ r" "list_all is_space ws" by blast
    show "r \<in> set (spaces (c # cs))"
    proof (cases ws)
      case Nil
      then have "r = c # cs" using ws by simp
      then show ?thesis by simp
    next
      case (Cons w ws')
      then have "w = c" "cs = ws' @ r" "is_space c" "list_all is_space ws'" using ws by auto
      then show ?thesis using Cons.IH by auto
    qed
  qed
qed

lemma lazy_any_iff: "(a, r) \<in> set (lazy_any s) \<longleftrightarrow> s = a @ r"
proof (induction s arbitrary: a)
  case Nil
  then show ?case by auto
next
  case (Cons c cs)
  then show ?case by (cases a) auto
qed

lemma capture_to_iff: "(cap, r) \<in> set (capture_to p s) \<longleftrightarrow> s = cap @ p @ r"
proof -
  have "(cap, r) \<in> set (capture_to p s) \<longleftrightarrow>
      (\<exists>e. (cap, e) \<in> set (lazy_any s) \<and> r \<in> set (lit p e))"
    unfolding capture_to_def by (auto simp: image_iff)
  then show ?thesis unfolding lazy_any_iff lit_iff by auto
qed

lemma block_open_iff:
  "b \<in> set (block_open s) \<longleftrightarrow>
     (\<exists>tag ws. s = ''```'' @ tag @ ws @ ''\<newline>'' @ b \<and>
        (tag = [] \<or> tag = ''json'') \<and> list_all is_space ws)"
  (is "?L \<longleftrightarrow> ?R")
proof
  assume ?L
  then obtain t1 t2 t3 where "s = ''```'' @ t1" "t2 = t1 \<or> t1 = ''json'' @ t2"
    and "t3 \<in> set (spaces t2)" "t3 = ''\<newline>'' @ b"
    unfolding block_open_def seq_iff opt_iff lit_iff by blast
  moreover then obtain ws where "t2 = ws @ t3" "list_all is_space ws"
    unfolding spaces_iff by blast
  ultimately have
    "(s = ''```'' @ [] @ ws @ ''\<newline>'' @ b \<or> s = ''```'' @ ''json'' @ ws @ ''\<newline>'' @ b)
       \<and> list_all is_space ws"
    by auto
  then show ?R by blast
next
  assume ?R
  then obtain tag ws where s: "s = ''```'' @ tag @ ws @ ''\<newline>'' @ b"
    and tag: "tag = [] \<or> tag = ''json''" and ws: "list_all is_space ws"
    by blast
  have 1: "tag @ ws @ ''\<newline>'' @ b \<in> set (lit ''```'' s)"
    unfolding lit_iff using s by simp
  have 2: "ws @ ''\<newline>'' @ b \<in> set (opt (lit ''json'') (tag @ ws @ ''\<newline>'' @ b))"
    unfolding opt_iff lit_iff using tag by auto
  have 3: "''\<newline>'' @ b \<in> set (spaces (ws @ ''\<newline>'' @ b))"
    unfolding spaces_iff using ws by blast
  have 4: "b \<in> set (lit ''\<newline>'' (''\<newline>'' @ b))"
    unfolding lit_iff by simp
  show ?L
    unfolding block_open_def seq_iff using 1 2 3 4 by blast
qed

lemma block_at_iff:
  "(cap, r) \<in> set (block_at s) \<longleftrightarrow>
     (\<exists>tag ws. s = ''```'' @ tag @ ws @ ''\<newline>'' @ cap @ ''\<newline>```'' @ r \<and>
        (tag = [] \<or> tag = ''json'') \<and> list_all is_space ws)"
proof -
  have "(cap, r) \<in> set (block_at s) \<longleftrightarrow>
      (\<exists>b. b \<in> set (block_open s) \<and> b = cap @ ''\<newline>```'' @ r)"
    unfolding block_at_def by (auto simp: capture_to_iff)
  also have "\<dots> \<longleftrightarrow>
      (\<exists>tag ws. s = ''```'' @ tag @ ws @ ''\<newline>'' @ cap @ ''\<newline>```'' @ r \<and>
        (tag = [] \<or> tag = ''json'') \<and> list_all is_space ws)"
    unfolding block_open_iff by auto
  finally show ?thesis .
qed


lemma search_Some: "search m s = Some x \<Longrightarrow> \<exists>pre t. s = pre @ t \<and> x \<in> set (m t)"
proof (induction s)
  case Nil
  then have "x \<in> set (m [])" by (auto split: list.splits)
  then show ?case by blast
next
  case (Cons c cs)
  show ?case
  proof (cases "m (c # cs)")
    case Nil
    then obtain pre t where "cs = pre @ t" "x \<in> set (m t)" using Cons by auto
    then have "c # cs = (c # pre) @ t \<and> x \<in> set (m t)" by simp
    then show ?thesis by blast
  next
    case (Cons y ys)
    then have "c # cs = [] @ (c # cs) \<and> x \<in> set (m (c # cs))" using Cons.prems by simp
    then show ?thesis by blast
  qed
qed

lemma search_block_at_shorter:
  assumes "search block_at s = Some (cap, rest)"
  shows "length rest < length s"
proof -
  obtain pre t where "s = pre @ t" "(cap, rest) \<in> set (block_at t)"
    using search_Some [OF assms] by blast
  then show ?thesis unfolding block_at_iff by auto
qed

text \<open>
  \<^verbatim>\<open>[...txtContent.matchAll(/.../g)]\<close>: the captures of the successive matches, each search
  starting where the previous match ended.
\<close>

function allJsonBlocks :: "string \<Rightarrow> string list" where
  "allJsonBlocks s =
     (case search block_at s of
        None \<Rightarrow> []
      | Some (jsonText, rest) \<Rightarrow> jsonText # allJsonBlocks rest)"
  by pat_completeness auto
termination
  by (relation "measure length") (auto dest: search_block_at_shorter)

declare allJsonBlocks.simps [simp del]

section \<open>dataParser.js\<close>













section \<open>The workflow service (CosmosDBService)\<close>

text \<open>
  What \<^verbatim>\<open>getAllFromLocalStorage\<close> finds under the key \<^verbatim>\<open>pitchbook_workflows\<close>: no entry (or
  the empty string), an entry that cannot be read (\<^verbatim>\<open>getItem\<close> or \<^verbatim>\<open>JSON.parse\<close> throws),
  or the value the entry parses to. A write stores \<^verbatim>\<open>JSON.stringify\<close> of a value, so the
  entry then parses to \<^const>\<open>jsonify\<close> of it.
\<close>

datatype entry = NoEntry | Unreadable | Parsed js

text \<open>
  What one call of the service meets outside itself: the body the backend answers with
  (\<open>None\<close> when \<^verbatim>\<open>fetch\<close> or \<^verbatim>\<open>response.json()\<close> throws), whether \<^verbatim>\<open>localStorage.setItem\<close>
  accepts a write (it throws when the quota is exceeded), the first and the second reading
  of \<^verbatim>\<open>new Date().toISOString()\<close>, and the string \<^verbatim>\<open>Math.random().toString(36)\<close>.
\<close>

record env =
  remote :: "js option"
  writable :: bool
  now :: string
  now_next :: string
  random :: string

text \<open>Values without \<^verbatim>\<open>undefined\<close> inside: what \<^verbatim>\<open>JSON.parse\<close> can return.\<close>

fun is_json :: "js \<Rightarrow> bool" where
  "is_json Undefined = False"
| "is_json (Arr xs) = list_all is_json xs"
| "is_json (Obj kvs) = list_all (\<lambda>(k, v). is_json v) kvs"
| "is_json v = True"

text \<open>
  The \<^verbatim>\<open>try\<close> block common to the five remote operations: the answer, when there is one
  and its \<^verbatim>\<open>success\<close> is truthy. Every other course (a rejected fetch, a body that is
  \<^verbatim>\<open>null\<close>, a falsy \<^verbatim>\<open>success\<close>) throws into the \<^verbatim>\<open>catch\<close> that falls back to localStorage.
\<close>

definition backend_result :: "env \<Rightarrow> js option" where
  "backend_result env =
     (case remote env of
        None \<Rightarrow> None
      | Some result \<Rightarrow>
          (case get_prop result ''success'' of
             Inl e \<Rightarrow> None
           | Inr success \<Rightarrow> if truthy success then Some result else None))"

text \<open>\<^verbatim>\<open>result.k\<close> of an answer that \<^const>\<open>backend_result\<close> let through, which is not \<^verbatim>\<open>null\<close>.\<close>

definition field :: "js \<Rightarrow> string \<Rightarrow> js" where
  "field v k = (case get_prop v k of Inl e \<Rightarrow> Undefined | Inr x \<Rightarrow> x)"

text \<open>\<^verbatim>\<open>v.length\<close>.\<close>

definition js_length :: "js \<Rightarrow> error + js" where
  "js_length v =
     (case v of
        Arr xs \<Rightarrow> Inr (Num (int (length xs)))
      | Str s \<Rightarrow> Inr (Num (int (length s)))
      | other \<Rightarrow> get_prop other ''length'')"

definition generateWorkflowId :: "env \<Rightarrow> string" where
  "generateWorkflowId env =
     (let timestamp = takeWhile (\<lambda>c. c \<noteq> CHR ''T'') (now env);
          randomStr = take 6 (drop 2 (random env))
      in ''workflow-'' @ timestamp @ ''-'' @ randomStr)"

definition getAllFromLocalStorage :: "entry \<Rightarrow> js" where
  "getAllFromLocalStorage store =
     (case store of NoEntry \<Rightarrow> Arr [] | Unreadable \<Rightarrow> Arr [] | Parsed data \<Rightarrow> data)"

text \<open>
  The callback \<^verbatim>\<open>w => w.id === workflowId\<close> run over the array by \<^verbatim>\<open>find\<close> and
  \<^verbatim>\<open>findIndex\<close>: the first element whose \<^verbatim>\<open>id\<close> is the string, with its index; the TypeError
  of an element that is \<^verbatim>\<open>null\<close> when the search reaches it.
\<close>

fun find_workflow :: "string \<Rightarrow> js list \<Rightarrow> error + (nat \<times> js) option" where
  "find_workflow workflowId [] = Inr None"
| "find_workflow workflowId (w # ws) =
     (case get_prop w ''id'' of
        Inl e \<Rightarrow> Inl e
      | Inr v \<Rightarrow>
          if v = Str workflowId then Inr (Some (0, w))
          else (case find_workflow workflowId ws of
                  Inr (Some (i, x)) \<Rightarrow> Inr (Some (Suc i, x))
                | r \<Rightarrow> r))"

text \<open>
  \<^verbatim>\<open>getFromLocalStorage\<close>: \<^verbatim>\<open>undefined\<close> when no element matches, \<^verbatim>\<open>null\<close> from the
  \<^verbatim>\<open>catch\<close> (the stored value has no \<^verbatim>\<open>find\<close>, or the callback throws).
\<close>

definition getFromLocalStorage :: "string \<Rightarrow> entry \<Rightarrow> js" where
  "getFromLocalStorage workflowId store =
     (case getAllFromLocalStorage store of
        Arr workflows \<Rightarrow>
          (case find_workflow workflowId workflows of
             Inl e \<Rightarrow> Null
           | Inr None \<Rightarrow> Undefined
           | Inr (Some (i, w)) \<Rightarrow> w)
      | other \<Rightarrow> Null)"

text \<open>
  \<^verbatim>\<open>updateInLocalStorage\<close>: the element at the index found is replaced and the array
  written back; every failure (no \<^verbatim>\<open>findIndex\<close>, a throwing callback, a refused write) is
  logged by the \<^verbatim>\<open>catch\<close> and leaves the entry as it was.
\<close>

definition updateInLocalStorage :: "env \<Rightarrow> string \<Rightarrow> js \<Rightarrow> entry \<Rightarrow> entry" where
  "updateInLocalStorage env workflowId updatedWorkflow store =
     (case getAllFromLocalStorage store of
        Arr workflows \<Rightarrow>
          (case find_workflow workflowId workflows of
             Inr (Some (i, w)) \<Rightarrow>
               if writable env then Parsed (jsonify (Arr (workflows[i := updatedWorkflow])))
               else store
           | r \<Rightarrow> store)
      | other \<Rightarrow> store)"

text \<open>The object literal of \<^verbatim>\<open>saveToLocalStorage\<close>: the five defaults, then \<^verbatim>\<open>...workflow\<close>.\<close>

definition default_fields :: "env \<Rightarrow> string \<Rightarrow> (string \<times> js) list" where
  "default_fields env workflowId =
     [(''id'', Str workflowId), (''workflowId'', Str workflowId),
      (''createdAt'', Str (now_next env)), (''status'', Str ''in_progress''),
      (''messages'', Arr [])]"

definition new_document :: "env \<Rightarrow> string \<Rightarrow> js \<Rightarrow> (string \<times> js) list" where
  "new_document env workflowId workflow =
     assign (default_fields env workflowId) (own_props workflow)"

text \<open>
  \<^verbatim>\<open>saveToLocalStorage\<close>: the identifier returned and the entry afterwards. When the stored
  value has no \<^verbatim>\<open>push\<close> or the write is refused, the \<^verbatim>\<open>catch\<close> logs and the function
  returns \<^verbatim>\<open>undefined\<close>.
\<close>

definition saveToLocalStorage :: "env \<Rightarrow> js \<Rightarrow> entry \<Rightarrow> js \<times> entry" where
  "saveToLocalStorage env workflow store =
     (let workflowId = generateWorkflowId env;
          document = new_document env workflowId workflow
      in case getAllFromLocalStorage store of
           Arr workflows \<Rightarrow>
             if writable env
             then (Str workflowId, Parsed (jsonify (Arr (workflows @ [Obj document]))))
             else (Undefined, store)
         | other \<Rightarrow> (Undefined, store))"

text \<open>
  \<^verbatim>\<open>createWorkflow\<close>: the object returned, or the error the promise rejects with, and the
  entry afterwards. The \<^verbatim>\<open>catch\<close> block reads \<^verbatim>\<open>getAllFromLocalStorage().length\<close> for its
  log line, outside any \<^verbatim>\<open>try\<close>.
\<close>

definition createWorkflow :: "env \<Rightarrow> js \<Rightarrow> entry \<Rightarrow> (error + js) \<times> entry" where
  "createWorkflow env workflowData store =
     (case backend_result env of
        Some result \<Rightarrow>
          (Inr (Obj [(''success'', Bool True), (''workflowId'', field result ''workflowId''),
                     (''document'', field result ''workflow'')]),
           store)
      | None \<Rightarrow>
          (case saveToLocalStorage env workflowData store of
             (workflowId, store') \<Rightarrow>
               (case js_length (getAllFromLocalStorage store') of
                  Inl e \<Rightarrow> (Inl e, store')
                | Inr n \<Rightarrow>
                    (Inr (Obj [(''success'', Bool True), (''workflowId'', workflowId)]), store'))))"

definition succeeded :: js where
  "succeeded = Obj [(''success'', Bool True)]"

definition not_found :: js where
  "not_found = Obj [(''success'', Bool False), (''error'', Str ''Workflow not found'')]"


text \<open>\<^verbatim>\<open>updateWorkflowStatus\<close>: in the fallback the status is assigned whatever it was.\<close>

definition updateWorkflowStatus :: "env \<Rightarrow> string \<Rightarrow> string \<Rightarrow> entry \<Rightarrow> (error + js) \<times> entry" where
  "updateWorkflowStatus env workflowId status store =
     (case backend_result env of
        Some result \<Rightarrow> (Inr succeeded, store)
      | None \<Rightarrow>
          (case getFromLocalStorage workflowId store of
             Obj props \<Rightarrow>
               (let workflow =
                      Obj (AList.update ''completedAt'' (Str (now env))
                             (AList.update ''status'' (Str status) props))
                in (Inr succeeded, updateInLocalStorage env workflowId workflow store))
           | workflow \<Rightarrow>
               if truthy workflow then (Inl TypeError, store) else (Inr not_found, store)))"

definition getWorkflow :: "env \<Rightarrow> string \<Rightarrow> entry \<Rightarrow> js" where
  "getWorkflow env workflowId store =
     (case backend_result env of
        Some result \<Rightarrow> field result ''workflow''
      | None \<Rightarrow> getFromLocalStorage workflowId store)"

text \<open>Example surroundings: the backend unreachable, on 2 November 2026.\<close>

definition offline :: env where
  "offline =
     \<lparr>remote = None, writable = True, now = ''2026-11-02T10:15:00.000Z'',
      now_next = ''2026-11-02T10:15:00.001Z'', random = ''0.k3j5h2x9q''\<rparr>"

definition offline_full :: env where
  "offline_full = offline\<lparr>writable := False\<rparr>"

text \<open>
  Example entries: the one \<^verbatim>\<open>startWorkflow\<close> of InvestmentThesis.js leaves behind when it
  creates its workflow offline, and one with a run in progress.
\<close>

definition started_workflow :: entry where
  "started_workflow =
     snd (createWorkflow offline
            (Obj [(''status'', Str ''failed''),
                  (''companies'', Arr [Str ''Vodafone Idea'', Str ''Apollo Micro Systems''])])
            NoEntry)"

definition running_workflow :: entry where
  "running_workflow =
     Parsed (Arr [Obj [(''id'', Str ''w2''), (''status'', Str ''in_progress''), (''messages'', Arr [])]])"

section \<open>Properties of the section extractor\<close>

subsection \<open>Blocks of a transcript\<close>













subsection \<open>Coercion of the section number\<close>

lemma lookup_update: "lookup (AList.update k v al) k' = (if k = k' then v else lookup al k')"
  by (simp add: lookup_def update_conv')







subsection \<open>The loop over the candidates\<close>











subsection \<open>Every candidate is a fenced block\<close>







subsection \<open>A block after text without delimiters is the next candidate\<close>











subsection \<open>The cache\<close>





subsection \<open>Claims about the extractor\<close>











text \<open>
  Why the text before the block must hold no delimiter: after an unpaired fence the
  scanner pairs the opening fence of the next block with it, and the block tagged
  \<^verbatim>\<open>json\<close> that follows is captured only together with its own opening line.
\<close>

lemma unpaired_fence_example:
  "allJsonBlocks ''```\<newline>notes\<newline>```json\<newline>{\"section\":3}\<newline>```\<newline>```json\<newline>{\"section\":4}\<newline>```'' =
     [''notes'', ''```json\<newline>{\"section\":4}'']"
  by code_simp


section \<open>Properties of the workflow service\<close>

subsection \<open>The JSON round trip of a write\<close>

lemma jsonify_id: "is_json v \<Longrightarrow> jsonify v = v"
proof (induction v)
  case (Arr xs)
  then have "\<forall>x \<in> set xs. x \<noteq> Undefined \<and> jsonify x = x"
    by (auto simp: list_all_iff)
  then show ?case by (simp add: map_idI)
next
  case (Obj kvs)
  then have a: "\<forall>(k, v) \<in> set kvs. v \<noteq> Undefined \<and> jsonify v = v"
    by (fastforce simp: list_all_iff)
  then have "filter (\<lambda>(k, v). v \<noteq> Undefined) kvs = kvs"
    by (auto intro!: filter_True)
  moreover have "map (\<lambda>(k, v). (k, jsonify v)) kvs = kvs"
    using a by (auto intro!: map_idI)
  ultimately show ?case by simp
qed simp_all

lemma map_of_jsonify:
  "map_of kvs k = Some v \<Longrightarrow> v \<noteq> Undefined \<Longrightarrow>
     map_of (map (\<lambda>(k, v). (k, jsonify v)) (filter (\<lambda>(k, v). v \<noteq> Undefined) kvs)) k =
       Some (jsonify v)"
  by (induction kvs) (auto split: if_splits)

lemma jsonify_Str_eq: "jsonify (Str s) = Str s"
  by simp

lemma jsonify_elements:
  "list_all is_json ws \<Longrightarrow> map (\<lambda>x. if x = Undefined then Null else jsonify x) ws = ws"
  by (induction ws) (auto simp: jsonify_id)

lemma jsonify_Arr_snoc:
  "list_all is_json ws \<Longrightarrow> w \<noteq> Undefined \<Longrightarrow> jsonify (Arr (ws @ [w])) = Arr (ws @ [jsonify w])"
  by (simp add: jsonify_elements)

lemma jsonify_Arr_update:
  assumes "list_all is_json ws" "w \<noteq> Undefined"
  shows "jsonify (Arr (ws[i := w])) = Arr (ws[i := jsonify w])"
proof -
  have "map (\<lambda>x. if x = Undefined then Null else jsonify x) (ws[i := w]) =
      (map (\<lambda>x. if x = Undefined then Null else jsonify x) ws)[i := jsonify w]"
    using assms(2) by (simp add: map_update)
  then show ?thesis using assms(1) by (simp add: jsonify_elements)
qed

lemma get_prop_jsonify:
  assumes "lookup kvs k = v" "v \<noteq> Undefined"
  shows "get_prop (jsonify (Obj kvs)) k = Inr (jsonify v)"
proof -
  have "map_of kvs k = Some v" using assms by (auto simp: lookup_def split: option.splits)
  then show ?thesis using assms(2) by (simp add: lookup_def map_of_jsonify)
qed


subsection \<open>Object spread\<close>

lemma map_of_assign: "map_of (assign tgt src) = map_of tgt ++ map_of (rev src)"
  unfolding assign_def
proof (induction src arbitrary: tgt)
  case Nil
  then show ?case by simp
next
  case (Cons p src)
  obtain k v where p: "p = (k, v)" by (cases p)
  have "map_of (foldl (\<lambda>acc (k, v). AList.update k v acc) (AList.update k v tgt) src) =
      map_of (AList.update k v tgt) ++ map_of (rev src)"
    by (rule Cons.IH)
  also have "\<dots> = map_of tgt ++ (map_of [(k, v)] ++ map_of (rev src))"
    by (auto simp: update_conv' fun_eq_iff map_add_def split: option.splits)
  finally show ?case using p by simp
qed

lemma lookup_assign_other:
  "k \<notin> fst ` set src \<Longrightarrow> lookup (assign tgt src) k = lookup tgt k"
proof -
  assume "k \<notin> fst ` set src"
  then have "map_of (rev src) k = None" by (simp add: map_of_eq_None_iff)
  then show ?thesis by (simp add: lookup_def map_of_assign map_add_def)
qed

lemma lookup_assign_source:
  assumes "distinct (map fst src)" "(k, v) \<in> set src"
  shows "lookup (assign tgt src) k = v"
proof -
  have "distinct (map fst (rev src))" using assms(1) by (simp add: rev_map [symmetric])
  moreover have "(k, v) \<in> set (rev src)" using assms(2) by simp
  ultimately have "map_of (rev src) k = Some v" by (rule map_of_is_SomeI)
  then show ?thesis by (simp add: lookup_def map_of_assign map_add_def)
qed

lemma new_document_defaults:
  assumes "k \<notin> fst ` set (own_props workflowData)"
  shows "lookup (new_document env workflowId workflowData) k =
           lookup (default_fields env workflowId) k"
  using assms by (simp add: new_document_def lookup_assign_other)

subsection \<open>Looking a record up after a write\<close>

lemma find_workflow_append:
  "find_workflow workflowId ws = Inr None \<Longrightarrow> get_prop w ''id'' = Inr (Str workflowId) \<Longrightarrow>
     find_workflow workflowId (ws @ [w]) = Inr (Some (length ws, w))"
  by (induction ws) (auto split: sum.splits if_splits option.splits)

lemma find_workflow_Some:
  "find_workflow workflowId ws = Inr (Some (i, w)) \<Longrightarrow>
     i < length ws \<and> ws ! i = w \<and> get_prop w ''id'' = Inr (Str workflowId)"
  by (induction ws arbitrary: i) (auto split: sum.splits if_splits option.splits)

lemma find_workflow_update:
  "find_workflow workflowId ws = Inr (Some (i, w)) \<Longrightarrow>
     get_prop w' ''id'' = Inr (Str workflowId) \<Longrightarrow>
     find_workflow workflowId (ws[i := w']) = Inr (Some (i, w'))"
  by (induction ws arbitrary: i) (auto split: sum.splits if_splits option.splits)

lemma getFromLocalStorage_Obj:
  assumes "getFromLocalStorage workflowId store = Obj props"
  shows "\<exists>workflows i. getAllFromLocalStorage store = Arr workflows \<and>
           find_workflow workflowId workflows = Inr (Some (i, Obj props))"
  using assms
  by (auto simp: getFromLocalStorage_def split: js.splits sum.splits option.splits)

lemma stored_update:
  assumes "getAllFromLocalStorage store = Arr workflows" and "list_all is_json workflows"
    and "find_workflow workflowId workflows = Inr (Some (i, w))" and "writable env"
    and "lookup props ''id'' = Str workflowId"
  shows "getFromLocalStorage workflowId (updateInLocalStorage env workflowId (Obj props) store) =
           jsonify (Obj props)"
proof -
  have u: "updateInLocalStorage env workflowId (Obj props) store =
      Parsed (Arr (workflows[i := jsonify (Obj props)]))"
    using assms(1,2,3,4) by (simp add: updateInLocalStorage_def jsonify_Arr_update del: jsonify.simps)
  have "get_prop (jsonify (Obj props)) ''id'' = Inr (Str workflowId)"
    using get_prop_jsonify [OF assms(5)] by simp
  then have "find_workflow workflowId (workflows[i := jsonify (Obj props)]) =
      Inr (Some (i, jsonify (Obj props)))"
    using assms(3) by (rule find_workflow_update [rotated])
  then show ?thesis
    unfolding u by (simp add: getFromLocalStorage_def getAllFromLocalStorage_def del: jsonify.simps)
qed

lemma stored_new:
  assumes "getAllFromLocalStorage store = Arr workflows" and "list_all is_json workflows"
    and "find_workflow workflowId workflows = Inr None"
    and "lookup props ''id'' = Str workflowId"
  shows "getFromLocalStorage workflowId (Parsed (jsonify (Arr (workflows @ [Obj props])))) =
           jsonify (Obj props)"
proof -
  have "get_prop (jsonify (Obj props)) ''id'' = Inr (Str workflowId)"
    using get_prop_jsonify [OF assms(4)] by simp
  then have "find_workflow workflowId (workflows @ [jsonify (Obj props)]) =
      Inr (Some (length workflows, jsonify (Obj props)))"
    using assms(3) by (rule find_workflow_append [rotated])
  then show ?thesis
    using assms(2)
    by (simp add: getFromLocalStorage_def getAllFromLocalStorage_def jsonify_Arr_snoc del: jsonify.simps)
qed

lemma createWorkflow_fallback:
  assumes "backend_result env = None" and "getAllFromLocalStorage store = Arr workflows"
    and "writable env"
  shows "createWorkflow env workflowData store =
           (Inr (Obj [(''success'', Bool True), (''workflowId'', Str (generateWorkflowId env))]),
            Parsed (jsonify (Arr (workflows @
              [Obj (new_document env (generateWorkflowId env) workflowData)]))))"
  using assms
  by (simp add: createWorkflow_def saveToLocalStorage_def Let_def getAllFromLocalStorage_def
      js_length_def)


lemma generateWorkflowId_form:
  "generateWorkflowId env =
     ''workflow-'' @ takeWhile (\<lambda>c. c \<noteq> CHR ''T'') (now env) @ ''-'' @ take 6 (drop 2 (random env))"
  by (simp add: generateWorkflowId_def)

subsection \<open>Claims about the workflow service\<close>

text \<open>
  C1, as amended. Whenever the local entry is absent, unreadable or an array,
  \<^verbatim>\<open>createWorkflow\<close> returns (its promise does not reject) and reports success. When the
  backend answers with success, the identifier returned is the backend's. When the remote
  call fails and the local write is accepted, the identifier returned is the synthesized
  \<^verbatim>\<open>workflow-<date>-<random>\<close>, which is not empty.
\<close>

theorem createWorkflow_identifier:
  assumes "getAllFromLocalStorage store = Arr workflows"
  shows "\<exists>reply. fst (createWorkflow env workflowData store) = Inr reply \<and>
           get_prop reply ''success'' = Inr (Bool True) \<and>
           (\<forall>result. backend_result env = Some result \<longrightarrow>
              get_prop reply ''workflowId'' = Inr (field result ''workflowId'')) \<and>
           (backend_result env = None \<and> writable env \<longrightarrow>
              get_prop reply ''workflowId'' = Inr (Str (generateWorkflowId env)) \<and>
              generateWorkflowId env =
                ''workflow-'' @ takeWhile (\<lambda>c. c \<noteq> CHR ''T'') (now env) @ ''-'' @
                  take 6 (drop 2 (random env)) \<and>
              generateWorkflowId env \<noteq> [])"
proof (cases "backend_result env")
  case (Some result)
  then show ?thesis by (simp add: createWorkflow_def lookup_def)
next
  case None
  show ?thesis
  proof (cases "writable env")
    case True
    show ?thesis
      using createWorkflow_fallback [OF None assms True, of workflowData] None True
      by (simp add: lookup_def generateWorkflowId_form)
  next
    case False
    then show ?thesis using None assms
      by (simp add: createWorkflow_def saveToLocalStorage_def Let_def js_length_def lookup_def)
  qed
qed

theorem createWorkflow_identifier_witness:
  "\<exists>reply. fst (createWorkflow offline (Obj [(''status'', Str ''failed'')]) NoEntry) = Inr reply \<and>
     get_prop reply ''success'' = Inr (Bool True) \<and>
     get_prop reply ''workflowId'' = Inr (Str ''workflow-2026-11-02-k3j5h2'')"
proof -
  have 1: "backend_result offline = None" by (simp add: backend_result_def offline_def)
  have 3: "writable offline" by (simp add: offline_def)
  have 4: "getAllFromLocalStorage NoEntry = Arr []" by (simp add: getAllFromLocalStorage_def)
  have g: "generateWorkflowId offline = ''workflow-2026-11-02-k3j5h2''" by code_simp
  obtain reply where "fst (createWorkflow offline (Obj [(''status'', Str ''failed'')]) NoEntry) = Inr reply"
    and "get_prop reply ''success'' = Inr (Bool True)"
    and "get_prop reply ''workflowId'' = Inr (Str (generateWorkflowId offline))"
    using createWorkflow_identifier [OF 4, of offline "Obj [(''status'', Str ''failed'')]"] 1 3
    by auto
  then show ?thesis unfolding g by blast
qed

text \<open>
  The claim as stated promises an identifier on every call. With the backend unreachable
  and the write refused (the quota exceeded), \<^verbatim>\<open>saveToLocalStorage\<close> logs the error and
  returns \<^verbatim>\<open>undefined\<close>, which \<^verbatim>\<open>createWorkflow\<close> hands on under \<^verbatim>\<open>success: true\<close>.
\<close>

theorem refused_write_counterexample:
  "fst (createWorkflow offline_full (Obj [(''status'', Str ''failed'')]) NoEntry) =
     Inr (Obj [(''success'', Bool True), (''workflowId'', Undefined)])"
  by code_simp




text \<open>
  C6, as amended. The initial fields carry no \<^verbatim>\<open>id\<close> and no \<^verbatim>\<open>messages\<close> property, the
  backend fails for both calls, the write is accepted, and the entry holds JSON records of
  which none has the synthesized identifier. Then \<^verbatim>\<open>createWorkflow\<close> returns that
  identifier, and \<^verbatim>\<open>getWorkflow\<close> with it returns a record whose \<^verbatim>\<open>id\<close> is the identifier
  and whose \<^verbatim>\<open>messages\<close> is the empty array.
\<close>

theorem created_workflow_found:
  assumes "backend_result env = None" and "backend_result env' = None" and "writable env"
    and "getAllFromLocalStorage store = Arr workflows" and "list_all is_json workflows"
    and "find_workflow (generateWorkflowId env) workflows = Inr None"
    and "''id'' \<notin> fst ` set (own_props workflowData)"
    and "''messages'' \<notin> fst ` set (own_props workflowData)"
  shows "fst (createWorkflow env workflowData store) =
           Inr (Obj [(''success'', Bool True), (''workflowId'', Str (generateWorkflowId env))]) \<and>
         get_prop (getWorkflow env' (generateWorkflowId env)
                     (snd (createWorkflow env workflowData store))) ''id'' =
           Inr (Str (generateWorkflowId env)) \<and>
         get_prop (getWorkflow env' (generateWorkflowId env)
                     (snd (createWorkflow env workflowData store))) ''messages'' =
           Inr (Arr [])"
proof -
  let ?id = "generateWorkflowId env"
  let ?doc = "new_document env ?id workflowData"
  have i: "lookup ?doc ''id'' = Str ?id"
    using new_document_defaults [OF assms(7)] by (simp add: default_fields_def lookup_def)
  have m: "lookup ?doc ''messages'' = Arr []"
    using new_document_defaults [OF assms(8)] by (simp add: default_fields_def lookup_def)
  have c: "createWorkflow env workflowData store =
      (Inr (Obj [(''success'', Bool True), (''workflowId'', Str ?id)]),
       Parsed (jsonify (Arr (workflows @ [Obj ?doc]))))"
    using assms(1,4,3) by (rule createWorkflow_fallback)
  have "getFromLocalStorage ?id (Parsed (jsonify (Arr (workflows @ [Obj ?doc])))) = jsonify (Obj ?doc)"
    using assms(4,5,6) i by (rule stored_new)
  then have g: "getWorkflow env' ?id (snd (createWorkflow env workflowData store)) = jsonify (Obj ?doc)"
    using assms(2) c by (simp add: getWorkflow_def del: jsonify.simps)
  have "get_prop (jsonify (Obj ?doc)) ''id'' = Inr (Str ?id)"
    using get_prop_jsonify [OF i] by simp
  moreover have "get_prop (jsonify (Obj ?doc)) ''messages'' = Inr (Arr [])"
    using get_prop_jsonify [OF m] by simp
  ultimately show ?thesis using c g by (simp del: jsonify.simps)
qed

theorem created_workflow_found_witness:
  "fst (createWorkflow offline (Obj [(''status'', Str ''failed'')]) NoEntry) =
     Inr (Obj [(''success'', Bool True), (''workflowId'', Str ''workflow-2026-11-02-k3j5h2'')]) \<and>
   get_prop (getWorkflow offline ''workflow-2026-11-02-k3j5h2''
               (snd (createWorkflow offline (Obj [(''status'', Str ''failed'')]) NoEntry))) ''id'' =
     Inr (Str ''workflow-2026-11-02-k3j5h2'') \<and>
   get_prop (getWorkflow offline ''workflow-2026-11-02-k3j5h2''
               (snd (createWorkflow offline (Obj [(''status'', Str ''failed'')]) NoEntry))) ''messages'' =
     Inr (Arr [])"
proof -
  have g: "generateWorkflowId offline = ''workflow-2026-11-02-k3j5h2''" by code_simp
  have 1: "backend_result offline = None" by (simp add: backend_result_def offline_def)
  have 3: "writable offline" by (simp add: offline_def)
  have 4: "getAllFromLocalStorage NoEntry = Arr []" by (simp add: getAllFromLocalStorage_def)
  have 5: "list_all is_json []" by simp
  have 6: "find_workflow (generateWorkflowId offline) [] = Inr None" by simp
  have 7: "''id'' \<notin> fst ` set (own_props (Obj [(''status'', Str ''failed'')]))" by simp
  have 8: "''messages'' \<notin> fst ` set (own_props (Obj [(''status'', Str ''failed'')]))" by simp
  show ?thesis
    using created_workflow_found [OF 1 1 3 4 5 6 7 8] unfolding g by simp
qed

text \<open>
  The claim as stated covers every initial-fields input. Initial fields with an \<^verbatim>\<open>id\<close> of
  their own replace the synthesized one in the record stored, and the lookup by the
  identifier returned finds nothing.
\<close>

theorem caller_id_counterexample:
  "fst (createWorkflow offline (Obj [(''id'', Str ''mine'')]) NoEntry) =
     Inr (Obj [(''success'', Bool True), (''workflowId'', Str ''workflow-2026-11-02-k3j5h2'')]) \<and>
   getWorkflow offline ''workflow-2026-11-02-k3j5h2''
     (snd (createWorkflow offline (Obj [(''id'', Str ''mine'')]) NoEntry)) = Undefined"
  by code_simp

text \<open>
  C7, as amended. On the fallback path \<^verbatim>\<open>updateWorkflowStatus\<close> writes the status it is
  given over the one the record has, whatever that is, and stamps \<^verbatim>\<open>completedAt\<close> with
  the clock; a later \<^verbatim>\<open>getWorkflow\<close> shows both.
\<close>

theorem status_overwritten:
  assumes "backend_result env = None" and "backend_result env' = None" and "writable env"
    and "getAllFromLocalStorage store = Arr workflows" and "list_all is_json workflows"
    and "getFromLocalStorage workflowId store = Obj props"
  shows "fst (updateWorkflowStatus env workflowId status store) = Inr succeeded \<and>
         get_prop (getWorkflow env' workflowId
                     (snd (updateWorkflowStatus env workflowId status store))) ''status'' =
           Inr (Str status) \<and>
         get_prop (getWorkflow env' workflowId
                     (snd (updateWorkflowStatus env workflowId status store))) ''completedAt'' =
           Inr (Str (now env))"
proof -
  let ?workflow = "AList.update ''completedAt'' (Str (now env)) (AList.update ''status'' (Str status) props)"
  have a: "updateWorkflowStatus env workflowId status store =
      (Inr succeeded, updateInLocalStorage env workflowId (Obj ?workflow) store)"
    using assms(1,6) by (simp add: updateWorkflowStatus_def Let_def)
  obtain i where f: "find_workflow workflowId workflows = Inr (Some (i, Obj props))"
    using getFromLocalStorage_Obj assms(4,6) by fastforce
  have "lookup props ''id'' = Str workflowId"
    using find_workflow_Some [OF f] by simp
  then have id': "lookup ?workflow ''id'' = Str workflowId" by (simp add: lookup_update)
  have g: "getWorkflow env' workflowId (snd (updateWorkflowStatus env workflowId status store)) =
      jsonify (Obj ?workflow)"
    using a assms(2) stored_update [OF assms(4,5) f assms(3) id']
    by (simp add: getWorkflow_def del: jsonify.simps)
  have "lookup ?workflow ''status'' = Str status" by (simp add: lookup_update)
  then have 1: "get_prop (jsonify (Obj ?workflow)) ''status'' = Inr (Str status)"
    using get_prop_jsonify [of ?workflow "''status''"] by (simp add: jsonify_Str_eq del: jsonify.simps)
  have "lookup ?workflow ''completedAt'' = Str (now env)" by (simp add: lookup_update)
  then have 2: "get_prop (jsonify (Obj ?workflow)) ''completedAt'' = Inr (Str (now env))"
    using get_prop_jsonify [of ?workflow "''completedAt''"] by (simp add: jsonify_Str_eq del: jsonify.simps)
  show ?thesis unfolding g using a 1 2 by simp
qed

theorem status_overwritten_witness:
  "fst (updateWorkflowStatus offline ''w2'' ''completed'' running_workflow) = Inr succeeded \<and>
   get_prop (getWorkflow offline ''w2''
               (snd (updateWorkflowStatus offline ''w2'' ''completed'' running_workflow)))
     ''status'' = Inr (Str ''completed'') \<and>
   get_prop (getWorkflow offline ''w2''
               (snd (updateWorkflowStatus offline ''w2'' ''completed'' running_workflow)))
     ''completedAt'' = Inr (Str ''2026-11-02T10:15:00.000Z'')"
proof -
  let ?props = "[(''id'', Str ''w2''), (''status'', Str ''in_progress''), (''messages'', Arr [])]"
  have 1: "backend_result offline = None" by (simp add: backend_result_def offline_def)
  have 3: "writable offline" by (simp add: offline_def)
  have 4: "getAllFromLocalStorage running_workflow = Arr [Obj ?props]"
    by (simp add: getAllFromLocalStorage_def running_workflow_def)
  have 5: "list_all is_json [Obj ?props]" by simp
  have 6: "getFromLocalStorage ''w2'' running_workflow = Obj ?props"
    by (simp add: getFromLocalStorage_def getAllFromLocalStorage_def running_workflow_def lookup_def)
  have n: "now offline = ''2026-11-02T10:15:00.000Z''" by (simp add: offline_def)
  show ?thesis
    using status_overwritten [OF 1 1 3 4 5 6, of "''completed''"] unfolding n by simp
qed

text \<open>
  The claim as stated makes \<^verbatim>\<open>failed\<close> terminal. The calls of \<^verbatim>\<open>startWorkflow\<close> in
  InvestmentThesis.js, with the backend unreachable: the workflow is created with status
  \<^verbatim>\<open>failed\<close>, and \<^verbatim>\<open>updateWorkflowStatus\<close> then makes it \<^verbatim>\<open>completed\<close>.
\<close>

theorem terminal_status_counterexample:
  "get_prop (getWorkflow offline ''workflow-2026-11-02-k3j5h2'' started_workflow) ''status'' =
     Inr (Str ''failed'') \<and>
   fst (updateWorkflowStatus offline ''workflow-2026-11-02-k3j5h2'' ''completed'' started_workflow) =
     Inr succeeded \<and>
   get_prop (getWorkflow offline ''workflow-2026-11-02-k3j5h2''
               (snd (updateWorkflowStatus offline ''workflow-2026-11-02-k3j5h2'' ''completed''
                       started_workflow)))
     ''status'' = Inr (Str ''completed'')"
  by code_simp

text \<open>
  C10. In the fallback of \<^verbatim>\<open>createWorkflow\<close> (backend failing, the entry an array, the write
  accepted) the record stored is the defaults with the caller's fields spread over them:
  every field the caller gives has the caller's value, every other key the default's. The
  witness has a caller's \<^verbatim>\<open>id\<close> stored beside a different \<^verbatim>\<open>workflowId\<close> returned.
\<close>

theorem caller_fields_take_precedence:
  assumes "backend_result env = None" and "getAllFromLocalStorage store = Arr workflows"
    and "writable env" and "distinct (map fst props)" and "(k, v) \<in> set props"
  shows "createWorkflow env (Obj props) store =
           (Inr (Obj [(''success'', Bool True), (''workflowId'', Str (generateWorkflowId env))]),
            Parsed (jsonify (Arr (workflows @
              [Obj (new_document env (generateWorkflowId env) (Obj props))])))) \<and>
         lookup (new_document env (generateWorkflowId env) (Obj props)) k = v \<and>
         (v \<noteq> Undefined \<longrightarrow>
            get_prop (jsonify (Obj (new_document env (generateWorkflowId env) (Obj props)))) k =
              Inr (jsonify v)) \<and>
         (\<forall>k'. k' \<notin> fst ` set props \<longrightarrow>
            lookup (new_document env (generateWorkflowId env) (Obj props)) k' =
              lookup (default_fields env (generateWorkflowId env)) k')"
proof -
  let ?document = "new_document env (generateWorkflowId env) (Obj props)"
  have v: "lookup ?document k = v"
    using assms(4,5) by (simp add: new_document_def lookup_assign_source)
  then have "v \<noteq> Undefined \<longrightarrow> get_prop (jsonify (Obj ?document)) k = Inr (jsonify v)"
    using get_prop_jsonify by blast
  moreover have "\<forall>k'. k' \<notin> fst ` set props \<longrightarrow>
      lookup ?document k' = lookup (default_fields env (generateWorkflowId env)) k'"
    by (simp add: new_document_def lookup_assign_other)
  ultimately show ?thesis
    using v createWorkflow_fallback [OF assms(1,2,3), of "Obj props"] by blast
qed

theorem caller_fields_take_precedence_witness:
  "createWorkflow offline (Obj [(''id'', Str ''mine''), (''status'', Str ''failed'')]) NoEntry =
     (Inr (Obj [(''success'', Bool True), (''workflowId'', Str ''workflow-2026-11-02-k3j5h2'')]),
      Parsed (Arr [Obj [(''id'', Str ''mine''), (''workflowId'', Str ''workflow-2026-11-02-k3j5h2''),
                        (''createdAt'', Str ''2026-11-02T10:15:00.001Z''),
                        (''status'', Str ''failed''), (''messages'', Arr [])]])) \<and>
   lookup (new_document offline ''workflow-2026-11-02-k3j5h2''
             (Obj [(''id'', Str ''mine''), (''status'', Str ''failed'')])) ''id'' = Str ''mine''"
proof -
  have g: "generateWorkflowId offline = ''workflow-2026-11-02-k3j5h2''" by code_simp
  have d: "jsonify (Arr ([] @ [Obj (new_document offline ''workflow-2026-11-02-k3j5h2''
             (Obj [(''id'', Str ''mine''), (''status'', Str ''failed'')]))])) =
      Arr [Obj [(''id'', Str ''mine''), (''workflowId'', Str ''workflow-2026-11-02-k3j5h2''),
                (''createdAt'', Str ''2026-11-02T10:15:00.001Z''),
                (''status'', Str ''failed''), (''messages'', Arr [])]]"
    by code_simp
  have 1: "backend_result offline = None" by (simp add: backend_result_def offline_def)
  have 2: "getAllFromLocalStorage NoEntry = Arr []" by (simp add: getAllFromLocalStorage_def)
  have 3: "writable offline" by (simp add: offline_def)
  have 4: "distinct (map fst [(''id'', Str ''mine''), (''status'', Str ''failed'')])" by simp
  have 5: "(''id'', Str ''mine'') \<in> set [(''id'', Str ''mine''), (''status'', Str ''failed'')]" by simp
  show ?thesis
    using caller_fields_take_precedence [OF 1 2 3 4 5] unfolding g d by simp
qed

end
